theory Spec2Isabelle
  imports Complex_Main "HOL-Library.Sublist"
begin

section \<open>Regions (Region.ts)\<close>

text \<open>
  JavaScript numbers are modelled by the reals: the code below only compares
  coordinates and subtracts them, and on finite numbers both agree with the
  real order and with the same subtraction on either side of every statement.
  NaN is outside the model. Objects with identity (regions, FSMs, images) are
  referred to by references; the fields of a Region object form a record.
\<close>

type_synonym ref = nat
type_synonym iref = nat

text \<open>An \<open>HTMLImageElement\<close>: its source and its size, which is \<open>0 \<times> 0\<close> until the
  image has been loaded.\<close>

record Image =
  img_src :: string
  img_width :: real
  img_height :: real

text \<open>The fields of a Region that geometry, damage and image loading use.
  \<open>reg_parent\<close> is the owning FSM, \<open>reg_image\<close> the \<open>HTMLImageElement\<close> if any.\<close>

record Region =
  reg_name :: string
  reg_parent :: "ref option"
  reg_imageLoc :: string
  reg_x :: real
  reg_y :: real
  reg_w :: real
  reg_h :: real
  reg_loaded :: bool
  reg_loadError :: bool
  reg_resizedByImage :: bool
  reg_image :: "iref option"

text \<open>
  What a Region method can reach outside the object itself: the static image
  cache (a \<open>Map<string, HTMLImageElement | undefined>\<close>, so a key can be
  present with an absent image), the image objects, the loads that have been
  started (\<open>img.src = ...\<close>), and three observation logs: the number of calls of
  \<open>Region.damage()\<close>, the FSMs those calls notified (\<open>parent.damage()\<close>), and the
  messages given to \<open>Err.emit\<close>.
\<close>

record Env =
  imageCache :: "string \<rightharpoonup> iref option"
  images :: "iref \<Rightarrow> Image"
  nextImage :: iref
  loadsStarted :: "(iref \<times> string) list"
  damageCalls :: nat
  parentDamage :: "ref list"
  errs :: "string list"

definition blankImage :: Image where
  "blankImage = \<lparr>img_src = '''', img_width = 0, img_height = 0\<rparr>"

text \<open>The state of a freshly loaded page: \<open>_imageCache = new Map\<close>, nothing loaded.\<close>

definition initialEnv :: Env where
  "initialEnv = \<lparr>imageCache = Map.empty, images = (\<lambda>_. blankImage), nextImage = 0,
     loadsStarted = [], damageCalls = 0, parentDamage = [], errs = []\<rparr>"

text \<open>Modelled from the spec: \<open>Err.emit\<close> (Err.ts is not among the sources) reports
  through a non-fatal diagnostic channel: the message is recorded and the caller
  continues.\<close>

definition Err_emit :: "string \<Rightarrow> Env \<Rightarrow> Env" where
  "Err_emit msg e = e\<lparr>errs := errs e @ [msg]\<rparr>"

text \<open>\<open>Region.pick\<close>\<close>

definition Region_pick :: "Region \<Rightarrow> real \<Rightarrow> real \<Rightarrow> bool" where
  "Region_pick r localX localY =
     ((0 \<le> localX) \<and> (localX \<le> reg_w r) \<and> (0 \<le> localY) \<and> (localY \<le> reg_h r))"

text \<open>\<open>Region.damage\<close>: forwards to the parent FSM if there is one.\<close>

definition Region_damage :: "Region \<Rightarrow> Env \<Rightarrow> Env" where
  "Region_damage r e =
     (let e1 = e\<lparr>damageCalls := damageCalls e + 1\<rparr>
      in case reg_parent r of
           Some p \<Rightarrow> e1\<lparr>parentDamage := parentDamage e1 @ [p]\<rparr>
         | None \<Rightarrow> e1)"

text \<open>The property setters. Each compares with \<open>===\<close> and returns at once on an
  equal value.\<close>

definition Region_set_x :: "real \<Rightarrow> Region \<times> Env \<Rightarrow> Region \<times> Env" where
  "Region_set_x v = (\<lambda>(r, e).
     if \<not> (reg_x r = v) then (let r' = r\<lparr>reg_x := v\<rparr> in (r', Region_damage r' e))
     else (r, e))"

definition Region_set_y :: "real \<Rightarrow> Region \<times> Env \<Rightarrow> Region \<times> Env" where
  "Region_set_y v = (\<lambda>(r, e).
     if \<not> (reg_y r = v) then (let r' = r\<lparr>reg_y := v\<rparr> in (r', Region_damage r' e))
     else (r, e))"

definition Region_set_w :: "real \<Rightarrow> Region \<times> Env \<Rightarrow> Region \<times> Env" where
  "Region_set_w v = (\<lambda>(r, e).
     if \<not> (reg_w r = v) then (let r' = r\<lparr>reg_w := v\<rparr> in (r', Region_damage r' e))
     else (r, e))"

definition Region_set_h :: "real \<Rightarrow> Region \<times> Env \<Rightarrow> Region \<times> Env" where
  "Region_set_h v = (\<lambda>(r, e).
     if \<not> (reg_h r = v) then (let r' = r\<lparr>reg_h := v\<rparr> in (r', Region_damage r' e))
     else (r, e))"

definition Region_set_size :: "real \<times> real \<Rightarrow> Region \<times> Env \<Rightarrow> Region \<times> Env" where
  "Region_set_size v = (\<lambda>(r, e).
     if (fst v \<noteq> reg_w r) \<or> (snd v \<noteq> reg_h r)
     then (let r' = r\<lparr>reg_w := fst v, reg_h := snd v\<rparr> in (r', Region_damage r' e))
     else (r, e))"

definition Region_set_parent :: "ref option \<Rightarrow> Region \<times> Env \<Rightarrow> Region \<times> Env" where
  "Region_set_parent v = (\<lambda>(r, e).
     if \<not> (reg_parent r = v) then (let r' = r\<lparr>reg_parent := v\<rparr> in (r', Region_damage r' e))
     else (r, e))"

text \<open>\<open>Region._resizeFromImage\<close>\<close>

definition resizeFromImage :: "Region \<times> Env \<Rightarrow> Region \<times> Env" where
  "resizeFromImage = (\<lambda>(r, e).
     case reg_image r of
       Some i \<Rightarrow>
         if reg_resizedByImage r \<and> reg_loaded r
         then Region_set_size (img_width (images e i), img_height (images e i)) (r, e)
         else (r, e)
     | None \<Rightarrow> (r, e))"

text \<open>The static cache methods.\<close>

definition imageIsCached :: "Env \<Rightarrow> string \<Rightarrow> bool" where
  "imageIsCached e imageLoc = (imageCache e imageLoc \<noteq> None)"

definition imageFromCache :: "Env \<Rightarrow> string \<Rightarrow> iref option" where
  "imageFromCache e imageLoc = (case imageCache e imageLoc of Some img \<Rightarrow> img | None \<Rightarrow> None)"

definition cacheImage :: "string \<Rightarrow> iref option \<Rightarrow> Env \<Rightarrow> Env" where
  "cacheImage imageLoc img e = e\<lparr>imageCache := (imageCache e)(imageLoc \<mapsto> img)\<rparr>"

text \<open>
  \<open>Region._startImageLoad\<close>, up to the \<open>await\<close>: the part that runs inside the
  caller. With an empty location or a cached one the method completes here.
  Otherwise it creates an image, clears both flags, starts the load by
  assigning \<open>img.src\<close> and suspends; what follows is driven by the image's
  \<open>onload\<close> or \<open>onerror\<close> event, below.
\<close>

definition startImageLoad :: "Region \<times> Env \<Rightarrow> Region \<times> Env" where
  "startImageLoad = (\<lambda>(r, e).
     if reg_imageLoc r = '''' then
       (let r1 = r\<lparr>reg_image := None, reg_loaded := True, reg_loadError := False\<rparr>;
            (r2, e2) = resizeFromImage (r1, e)
        in (r2, Region_damage r2 e2))
     else if imageIsCached e (reg_imageLoc r) then
       (let r1 = r\<lparr>reg_image := imageFromCache e (reg_imageLoc r),
                    reg_loaded := True, reg_loadError := False\<rparr>;
            (r2, e2) = resizeFromImage (r1, e)
        in (r2, Region_damage r2 e2))
     else
       (let img = nextImage e;
            e1 = e\<lparr>images := (images e)(img := blankImage), nextImage := img + 1\<rparr>;
            r1 = r\<lparr>reg_image := Some img, reg_loaded := False, reg_loadError := False\<rparr>;
            e2 = e1\<lparr>images := (images e1)(img := (images e1 img)\<lparr>img_src := reg_imageLoc r1\<rparr>),
                     loadsStarted := loadsStarted e1 @ [(img, reg_imageLoc r1)]\<rparr>
        in (r1, e2)))"

text \<open>
  The statements after the \<open>await\<close>: the image is cached under the region's
  current location (absent if \<open>loadError\<close> is set) and damage is declared.
\<close>

definition afterAwait :: "Region \<times> Env \<Rightarrow> Region \<times> Env" where
  "afterAwait = (\<lambda>(r, e).
     let e1 = cacheImage (reg_imageLoc r) (if reg_loadError r then None else reg_image r) e
     in (r, Region_damage r e1))"

text \<open>
  The image \<open>img\<close> has been loaded with natural size \<open>width \<times> height\<close>. Its
  \<open>onload\<close> handler resolves the promise, sets \<open>loaded\<close> and resizes; the resolved
  promise then resumes the method after the \<open>await\<close>.
\<close>

definition img_onload :: "iref \<Rightarrow> real \<Rightarrow> real \<Rightarrow> Region \<times> Env \<Rightarrow> Region \<times> Env" where
  "img_onload img width height = (\<lambda>(r, e).
     let e1 = e\<lparr>images := (images e)(img := (images e img)\<lparr>img_width := width, img_height := height\<rparr>)\<rparr>;
         r1 = r\<lparr>reg_loaded := True\<rparr>
     in afterAwait (resizeFromImage (r1, e1)))"

text \<open>
  The load of an image has failed. Its \<open>onerror\<close> handler rejects the promise,
  sets both flags and emits the message. The rejected promise makes the
  \<open>await\<close> throw inside \<open>_startImageLoad\<close>, which has no handler for it: the
  method ends there and the statements after the \<open>await\<close> do not run.
\<close>

definition img_onerror :: "iref \<Rightarrow> Region \<times> Env \<Rightarrow> Region \<times> Env" where
  "img_onerror img = (\<lambda>(r, e).
     let r1 = r\<lparr>reg_loadError := True\<rparr>;
         r2 = r1\<lparr>reg_loaded := True\<rparr>
     in (r2, Err_emit (''Load of image from '' @ reg_imageLoc r2 @ '' failed'') e))"

text \<open>The \<open>imageLoc\<close> setter.\<close>

definition Region_set_imageLoc :: "string \<Rightarrow> Region \<times> Env \<Rightarrow> Region \<times> Env" where
  "Region_set_imageLoc v = (\<lambda>(r, e).
     if v \<noteq> reg_imageLoc r then startImageLoad (r\<lparr>reg_imageLoc := v\<rparr>, e)
     else (r, e))"

text \<open>The constructor: a negative width or height asks for the image's size and
  starts at 0; the load is started at once.\<close>

definition Region_new ::
  "string \<Rightarrow> string \<Rightarrow> real \<Rightarrow> real \<Rightarrow> real \<Rightarrow> real \<Rightarrow> ref option \<Rightarrow> Env \<Rightarrow> Region \<times> Env" where
  "Region_new name imageLoc x y w h parent e =
     (let resized = ((w < 0) \<or> (h < 0));
          w1 = (if w < 0 then 0 else w);
          h1 = (if h < 0 then 0 else h);
          r = \<lparr>reg_name = name, reg_parent = parent, reg_imageLoc = imageLoc,
               reg_x = x, reg_y = y, reg_w = w1, reg_h = h1,
               reg_loaded = False, reg_loadError = False,
               reg_resizedByImage = resized, reg_image = None\<rparr>
      in startImageLoad (r, e))"

section \<open>The interactor (FSMInteractor.ts)\<close>

text \<open>The region objects of the program, by reference.\<close>

type_synonym heap = "ref \<Rightarrow> Region"

record MouseEvent =
  offsetX :: real
  offsetY :: real

text \<open>The semantic events given to the FSM, and the raw events the host gives to
  the interactor.\<close>

datatype EventType = enter | exit | press | move_inside | release | release_none | rightClick

datatype RawEvent = raw_press | raw_move | raw_release | raw_rightClick

text \<open>One call \<open>fsm.actOnEvent(evtType, region, evt)\<close> with its arguments; an
  argument that is left out is \<open>None\<close>.\<close>

datatype FSMCall = ActOnEvent EventType "ref option" "MouseEvent option"

text \<open>
  FSM.ts is not among the sources. Of its FSM the interactor reads the region
  list, in drawing order, and calls \<open>actOnEvent\<close>. What the FSM does with an
  event is a parameter of the model: \<open>react\<close> changes the rest of the FSM's state,
  \<open>fsm_state\<close>, in any way. Every \<open>actOnEvent\<close> call is recorded in \<open>received\<close>, in
  the order the calls are made. All arguments of the calls of one dispatch are
  computed into local arrays before the first call is made, so what a call
  does, also to the regions, cannot change the calls that follow it.
\<close>

record 's FSM =
  regions :: "ref list"
  received :: "FSMCall list"
  fsm_state :: 's

definition actOnEvent ::
  "(FSMCall \<Rightarrow> 's \<Rightarrow> 's) \<Rightarrow> EventType \<Rightarrow> ref option \<Rightarrow> MouseEvent option \<Rightarrow> 's FSM \<Rightarrow> 's FSM" where
  "actOnEvent react evtType region evt f =
     f\<lparr>received := received f @ [ActOnEvent evtType region evt],
       fsm_state := react (ActOnEvent evtType region evt) (fsm_state f)\<rparr>"

text \<open>
  The interactor's fields, with two observation counters: the calls of
  \<open>FSMInteractor.damage()\<close> and the calls of \<open>parent.damage()\<close> that reach the
  Root object.
\<close>

record 's FSMInteractor =
  fsm :: "'s FSM option"
  fsmi_x :: real
  fsmi_y :: real
  fsmi_parent :: "ref option"
  bookkeeping :: "ref list"
  fsmi_damageCalls :: nat
  rootDamage :: nat

text \<open>The constructor; \<open>_bookkeeping\<close> starts as the empty array. (The back
  reference \<open>fsm.parent = this\<close> is a field of the FSM object.)\<close>

definition FSMInteractor_new ::
  "'s FSM option \<Rightarrow> real \<Rightarrow> real \<Rightarrow> ref option \<Rightarrow> 's FSMInteractor" where
  "FSMInteractor_new f x y parent =
     \<lparr>fsm = f, fsmi_x = x, fsmi_y = y, fsmi_parent = parent, bookkeeping = [],
      fsmi_damageCalls = 0, rootDamage = 0\<rparr>"

definition FSMInteractor_damage :: "'s FSMInteractor \<Rightarrow> 's FSMInteractor" where
  "FSMInteractor_damage it =
     (let it1 = it\<lparr>fsmi_damageCalls := fsmi_damageCalls it + 1\<rparr>
      in if fsmi_parent it1 \<noteq> None then it1\<lparr>rootDamage := rootDamage it1 + 1\<rparr> else it1)"

text \<open>\<open>FSMInteractor.pick\<close>: the loop over the regions in drawing order, each picked
  region put at the front of the list (\<open>unshift\<close>).\<close>

definition FSMInteractor_pick :: "heap \<Rightarrow> 's FSMInteractor \<Rightarrow> real \<Rightarrow> real \<Rightarrow> ref list" where
  "FSMInteractor_pick hp it localX localY =
     (case fsm it of
        None \<Rightarrow> []
      | Some f \<Rightarrow>
          fold (\<lambda>region pickList.
                  let regionX = localX - reg_x (hp region);
                      regionY = localY - reg_y (hp region)
                  in if Region_pick (hp region) regionX regionY
                     then region # pickList else pickList)
               (regions f) [])"

text \<open>\<open>Array.includes\<close> on an array of objects compares by identity.\<close>

definition array_includes :: "ref list \<Rightarrow> ref \<Rightarrow> bool" where
  "array_includes xs x = (x \<in> set xs)"

text \<open>\<open>xs.forEach(x => fsm.actOnEvent(evtType, x, evt))\<close>\<close>

definition forEach_actOnEvent ::
  "(FSMCall \<Rightarrow> 's \<Rightarrow> 's) \<Rightarrow> EventType \<Rightarrow> MouseEvent option \<Rightarrow> ref list \<Rightarrow> 's FSM \<Rightarrow> 's FSM" where
  "forEach_actOnEvent react evtType evt xs f = fold (\<lambda>x. actOnEvent react evtType (Some x) evt) xs f"

text \<open>
  \<open>FSMInteractor.dispatchRawEvent\<close>. The final assignment goes through the
  \<open>bookkeeping\<close> setter, whose identity test never holds for the array that
  \<open>pick\<close> has just created: the array is stored and damage is declared.
\<close>

definition dispatchRawEvent ::
  "(FSMCall \<Rightarrow> 's \<Rightarrow> 's) \<Rightarrow> heap \<Rightarrow> RawEvent \<Rightarrow> real \<Rightarrow> real \<Rightarrow> MouseEvent \<Rightarrow>
     's FSMInteractor \<Rightarrow> 's FSMInteractor" where
  "dispatchRawEvent react hp what localX localY evt it =
     (case fsm it of
        None \<Rightarrow> it
      | Some f \<Rightarrow>
          let currRegions = FSMInteractor_pick hp it localX localY;
              enterRegions = filter (\<lambda>x. \<not> array_includes (bookkeeping it) x) currRegions;
              exitRegions = filter (\<lambda>y. \<not> array_includes currRegions y) (bookkeeping it);
              f1 = forEach_actOnEvent react exit None exitRegions f;
              f2 = forEach_actOnEvent react enter None enterRegions f1;
              f3 = (case what of
                      raw_rightClick \<Rightarrow> forEach_actOnEvent react rightClick (Some evt) currRegions f2
                    | raw_press \<Rightarrow> forEach_actOnEvent react press None currRegions f2
                    | raw_move \<Rightarrow> forEach_actOnEvent react move_inside None currRegions f2
                    | raw_release \<Rightarrow>
                        if length currRegions > 0
                        then forEach_actOnEvent react release None currRegions f2
                        else actOnEvent react release_none None None f2)
          in FSMInteractor_damage (it\<lparr>fsm := Some f3, bookkeeping := currRegions\<rparr>))"

text \<open>The events the FSM receives during one call of \<open>dispatchRawEvent\<close>: what the
  call adds to \<open>received\<close>.\<close>

definition forwarded ::
  "(FSMCall \<Rightarrow> 's \<Rightarrow> 's) \<Rightarrow> heap \<Rightarrow> RawEvent \<Rightarrow> real \<Rightarrow> real \<Rightarrow> MouseEvent \<Rightarrow>
     's FSMInteractor \<Rightarrow> FSMCall list" where
  "forwarded react hp what localX localY evt it =
     (case (fsm it, fsm (dispatchRawEvent react hp what localX localY evt it)) of
        (Some f, Some f') \<Rightarrow> drop (length (received f)) (received f')
      | _ \<Rightarrow> [])"

text \<open>A run of the interactor: one frame per raw event, each with the regions as
  they are when the event arrives.\<close>

type_synonym frame = "heap \<times> RawEvent \<times> real \<times> real \<times> MouseEvent"

fun run ::
  "(FSMCall \<Rightarrow> 's \<Rightarrow> 's) \<Rightarrow> frame list \<Rightarrow> 's FSMInteractor \<Rightarrow> 's FSMInteractor" where
  "run react [] it = it"
| "run react ((hp, what, localX, localY, evt) # frames) it =
     run react frames (dispatchRawEvent react hp what localX localY evt it)"

section \<open>Actions (Action.ts)\<close>

text \<open>
  What an action can reach: the region objects, the environment of the Region
  methods, the console, and the drawing behaviours of a region (drawing tools,
  colour menu, menu dragging), of which the model records the calls.
\<close>

datatype LogArg = LStr string | LEvt EventType | LDebugString "Region option"

datatype Behaviour =
    StartDraw string
  | RemoveListeners
  | ShowColorWheel "MouseEvent option"
  | MoveMenu "ref list"

record World =
  w_heap :: heap
  w_env :: Env
  console :: "LogArg list list"
  behaviours :: "(ref \<times> Behaviour) list"

datatype error = Error string

text \<open>At run time an action type is a string; \<open>ActionType\<close> is the union of the
  strings of \<open>actionTypeStrings\<close>.\<close>

definition actionTypeStrings :: "string list" where
  "actionTypeStrings =
     [''set_image'', ''clear_image'', ''none'', ''print'', ''print_event'', ''select_lineBrush'',
      ''draw_line'', ''draw_rect'', ''draw_circle'', ''erase'', ''stopCurrentDrawing'',
      ''select_color'', ''draw_free'', ''move_menu'']"

record Action =
  actType :: string
  onRegionName :: string
  param :: string
  onRegion :: "ref option"
  regionLs :: "ref list"

definition Action_new :: "string \<Rightarrow> string \<Rightarrow> string \<Rightarrow> Action" where
  "Action_new actType' regionName param' =
     \<lparr>actType = actType', onRegionName = regionName, param = param', onRegion = None,
      regionLs = []\<rparr>"

definition console_log :: "LogArg list \<Rightarrow> World \<Rightarrow> World" where
  "console_log args w = w\<lparr>console := console w @ [args]\<rparr>"

text \<open>\<open>region.imageLoc = v\<close> on a region object.\<close>

definition assign_imageLoc :: "ref \<Rightarrow> string \<Rightarrow> World \<Rightarrow> World" where
  "assign_imageLoc region v w =
     (let (r', e') = Region_set_imageLoc v (w_heap w region, w_env w)
      in w\<lparr>w_heap := (w_heap w)(region := r'), w_env := e'\<rparr>)"

text \<open>\<open>this.onRegion?.behaviour(...)\<close>: nothing happens without a region.\<close>

definition onRegion_call :: "ref option \<Rightarrow> Behaviour \<Rightarrow> World \<Rightarrow> World" where
  "onRegion_call region b w =
     (case region of
        Some r \<Rightarrow> w\<lparr>behaviours := behaviours w @ [(r, b)]\<rparr>
      | None \<Rightarrow> w)"

text \<open>\<open>Action.execute\<close> of Action.ts. The \<open>switch\<close> has no \<open>default\<close> branch: an action
  type without a \<open>case\<close> falls through it.\<close>

definition Action_execute ::
  "EventType \<Rightarrow> ref option \<Rightarrow> MouseEvent option \<Rightarrow> Action \<Rightarrow> World \<Rightarrow> error + World" where
  "Action_execute evtType evtReg evt a w =
     (if actType a = ''none'' then Inr w
      else
        let w1 = console_log [LStr ''evtType:'', LEvt evtType] w;
            w2 = console_log [LStr ''actType:'', LStr (actType a)] w1
        in if actType a = ''set_image'' then
             (case onRegion a of
                Some r \<Rightarrow> Inr (assign_imageLoc r (param a) w2)
              | None \<Rightarrow> Inr w2)
           else if actType a = ''clear_image'' then
             (case onRegion a of
                Some r \<Rightarrow> Inr (assign_imageLoc r [] w2)
              | None \<Rightarrow> Inr w2)
           else if actType a = ''print'' then
             Inr (console_log [LStr (param a)] w2)
           else if actType a = ''print_event'' then
             Inr (console_log [LStr ''Current event: '', LStr (param a), LEvt evtType,
                               LDebugString (map_option (w_heap w2) evtReg)] w2)
           else if actType a = ''draw_line'' then
             Inr (onRegion_call (onRegion a) (StartDraw ''line'')
                    (console_log [LStr ''action: draw_line''] w2))
           else if actType a = ''draw_rect'' then
             Inr (onRegion_call (onRegion a) (StartDraw ''rect'')
                    (console_log [LStr ''action: draw_rect''] w2))
           else if actType a = ''draw_circle'' then
             Inr (onRegion_call (onRegion a) (StartDraw ''circle'')
                    (console_log [LStr ''action: draw_circle''] w2))
           else if actType a = ''erase'' then
             Inr (onRegion_call (onRegion a) (StartDraw ''erase'')
                    (console_log [LStr ''action: erase''] w2))
           else if actType a = ''stopCurrentDrawing'' then
             Inr (onRegion_call (onRegion a) RemoveListeners
                    (console_log [LStr ''stopCurrentDrawing''] w2))
           else if actType a = ''select_color'' then
             Inr (onRegion_call (onRegion a) (ShowColorWheel evt) w2)
           else if actType a = ''draw_free'' then
             Inr (onRegion_call (onRegion a) (StartDraw ''free'')
                    (console_log [LStr ''action: draw free''] w2))
           else if actType a = ''move_menu'' then
             Inr (onRegion_call (onRegion a) (MoveMenu (regionLs a)) w2)
           else Inr w2)"

text \<open>
  \<open>Action.execute\<close> of the compiled Action.js, built from an earlier revision of
  Action.ts (it has neither \<open>draw_free\<close> nor \<open>move_menu\<close>). Its \<open>switch\<close> ends in
  \<open>default: throw new Error(...)\<close>.
\<close>

definition Action_execute_js ::
  "EventType \<Rightarrow> ref option \<Rightarrow> MouseEvent option \<Rightarrow> Action \<Rightarrow> World \<Rightarrow> error + World" where
  "Action_execute_js evtType evtReg evt a w =
     (if actType a = ''none'' then Inr w
      else
        let w1 = console_log [LEvt evtType] w;
            w2 = console_log [LStr (actType a)] w1
        in if actType a = ''set_image'' then
             (case onRegion a of
                Some r \<Rightarrow> Inr (assign_imageLoc r (param a) w2)
              | None \<Rightarrow> Inr w2)
           else if actType a = ''clear_image'' then
             (case onRegion a of
                Some r \<Rightarrow> Inr (assign_imageLoc r [] w2)
              | None \<Rightarrow> Inr w2)
           else if actType a = ''print'' then
             Inr (console_log [LStr (param a)] w2)
           else if actType a = ''print_event'' then
             Inr (console_log [LStr ''Current event: '', LStr (param a), LEvt evtType,
                               LDebugString (map_option (w_heap w2) evtReg)] w2)
           else if actType a = ''draw_line'' then
             Inr (onRegion_call (onRegion a) (StartDraw ''line'')
                    (console_log [LStr ''action: draw_line''] w2))
           else if actType a = ''draw_rect'' then
             Inr (onRegion_call (onRegion a) (StartDraw ''rect'')
                    (console_log [LStr ''action: draw_rect''] w2))
           else if actType a = ''draw_circle'' then
             Inr (onRegion_call (onRegion a) (StartDraw ''circle'')
                    (console_log [LStr ''action: draw_circle''] w2))
           else if actType a = ''erase'' then
             Inr (onRegion_call (onRegion a) (StartDraw ''erase'')
                    (console_log [LStr ''action: erase''] w2))
           else if actType a = ''stopCurrentDrawing'' then
             Inr (onRegion_call (onRegion a) RemoveListeners
                    (console_log [LStr ''stopCurrentDrawing''] w2))
           else if actType a = ''select_color'' then
             Inr (onRegion_call (onRegion a) (ShowColorWheel evt) w2)
           else Inl (Error (''Unknown action type: '' @ actType a)))"

text \<open>\<open>Action.bindRegion\<close>: the loop over the region list, which returns at the first
  region with the action's region name.\<close>

fun bindLoop :: "heap \<Rightarrow> string \<Rightarrow> ref list \<Rightarrow> ref option" where
  "bindLoop hp n [] = None"
| "bindLoop hp n (region # rest) =
     (if reg_name (hp region) = n then Some region else bindLoop hp n rest)"

definition bindingError :: "string \<Rightarrow> string" where
  "bindingError n = ''Region '' @ [CHR 0x27] @ n @ [CHR 0x27] @ '' in action does not match any region.''"

definition Action_bindRegion :: "ref list \<Rightarrow> Action \<Rightarrow> World \<Rightarrow> Action \<times> World" where
  "Action_bindRegion regionList a w =
     (let a1 = a\<lparr>regionLs := regionList\<rparr>
      in case bindLoop (w_heap w) (onRegionName a1) regionList of
           Some region \<Rightarrow> (a1\<lparr>onRegion := Some region\<rparr>, w)
         | None \<Rightarrow>
             if actType a1 = ''none'' \<or> actType a1 = ''print'' \<or> actType a1 = ''print_event''
             then (a1\<lparr>onRegion := None\<rparr>, w)
             else (a1, w\<lparr>w_env := Err_emit (bindingError (onRegionName a1)) (w_env w)\<rparr>))"

text \<open>The event type of a recorded call.\<close>

fun callType :: "FSMCall \<Rightarrow> EventType" where
  "callType (ActOnEvent evtType region evt) = evtType"

text \<open>A heap and a world to start from: no region has been created yet.\<close>

definition noRegion :: Region where
  "noRegion = \<lparr>reg_name = [], reg_parent = None, reg_imageLoc = [],
     reg_x = 0, reg_y = 0, reg_w = 0, reg_h = 0, reg_loaded = False, reg_loadError = False,
     reg_resizedByImage = False, reg_image = None\<rparr>"

definition emptyHeap :: heap where
  "emptyHeap = (\<lambda>_. noRegion)"

definition initialWorld :: World where
  "initialWorld = \<lparr>w_heap = emptyHeap, w_env = initialEnv, console = [], behaviours = []\<rparr>"

section \<open>The life of a Region\<close>

text \<open>
  The states a Region object and its environment can be in: the object is
  constructed, its properties are assigned, the \<open>onload\<close> and \<open>onerror\<close> events of
  images arrive (also of images whose load an assignment of \<open>imageLoc\<close> has since
  replaced), dragging the menu writes \<open>_x\<close> and \<open>_y\<close> directly, and other
  objects change the environment in between.
\<close>

inductive reachable :: "Region \<times> Env \<Rightarrow> bool" where
  r_new: "reachable (Region_new name imageLoc x y w h parent e)"
| r_set_x: "reachable s \<Longrightarrow> reachable (Region_set_x v s)"
| r_set_y: "reachable s \<Longrightarrow> reachable (Region_set_y v s)"
| r_set_w: "reachable s \<Longrightarrow> reachable (Region_set_w v s)"
| r_set_h: "reachable s \<Longrightarrow> reachable (Region_set_h v s)"
| r_set_size: "reachable s \<Longrightarrow> reachable (Region_set_size wh s)"
| r_set_parent: "reachable s \<Longrightarrow> reachable (Region_set_parent p s)"
| r_set_imageLoc: "reachable s \<Longrightarrow> reachable (Region_set_imageLoc loc s)"
| r_onload: "reachable s \<Longrightarrow> reachable (img_onload img width height s)"
| r_onerror: "reachable s \<Longrightarrow> reachable (img_onerror img s)"
| r_moved: "reachable (r, e) \<Longrightarrow> reachable (r\<lparr>reg_x := a, reg_y := b\<rparr>, e)"
| r_env: "reachable (r, e) \<Longrightarrow> reachable (r, e')"

section \<open>An example\<close>

text \<open>
  Two overlapping regions: \<open>A\<close>, drawn first, covers \<open>[0,100] \<times> [0,100]\<close> and \<open>B\<close>,
  drawn on top of it, covers \<open>[50,150] \<times> [50,150]\<close>. In \<open>exampleWorld\<close> a third
  region is also called \<open>B\<close>.
\<close>

definition exampleHeap :: heap where
  "exampleHeap = emptyHeap
     (0 := noRegion\<lparr>reg_name := ''A'', reg_w := 100, reg_h := 100\<rparr>,
      1 := noRegion\<lparr>reg_name := ''B'', reg_x := 50, reg_y := 50, reg_w := 100, reg_h := 100\<rparr>)"

text \<open>An FSM that counts the events it is given.\<close>

definition countEvents :: "FSMCall \<Rightarrow> nat \<Rightarrow> nat" where
  "countEvents c n = n + 1"

definition exampleFSM :: "nat FSM" where
  "exampleFSM = \<lparr>regions = [0, 1], received = [], fsm_state = 0\<rparr>"

definition exampleEvent :: MouseEvent where
  "exampleEvent = \<lparr>offsetX = 0, offsetY = 0\<rparr>"

definition exampleWorld :: World where
  "exampleWorld = initialWorld\<lparr>w_heap := exampleHeap(2 := noRegion\<lparr>reg_name := ''B'', reg_w := 5\<rparr>)\<rparr>"

section \<open>Properties of the Region methods\<close>

lemma damageCalls_Region_damage: "damageCalls (Region_damage r e) = damageCalls e + 1"
  by (simp add: Region_damage_def Let_def split: option.splits)

lemma loadsStarted_Region_damage: "loadsStarted (Region_damage r e) = loadsStarted e"
  by (simp add: Region_damage_def Let_def split: option.splits)

lemma imageCache_Region_damage: "imageCache (Region_damage r e) = imageCache e"
  by (simp add: Region_damage_def Let_def split: option.splits)

text \<open>The size setter changes no load state and declares damage at most once.\<close>

lemma Region_set_size_flags:
  "Region_set_size v (r, e) = (r', e') \<Longrightarrow>
     reg_loaded r' = reg_loaded r \<and> reg_loadError r' = reg_loadError r \<and>
     reg_imageLoc r' = reg_imageLoc r \<and> reg_image r' = reg_image r \<and>
     loadsStarted e' = loadsStarted e \<and> imageCache e' = imageCache e \<and>
     damageCalls e \<le> damageCalls e' \<and> damageCalls e' \<le> damageCalls e + 1"
  by (auto simp add: Region_set_size_def Let_def damageCalls_Region_damage
      loadsStarted_Region_damage imageCache_Region_damage split: if_splits)

lemma resizeFromImage_flags:
  "resizeFromImage (r, e) = (r', e') \<Longrightarrow>
     reg_loaded r' = reg_loaded r \<and> reg_loadError r' = reg_loadError r \<and>
     reg_imageLoc r' = reg_imageLoc r \<and> reg_image r' = reg_image r \<and>
     loadsStarted e' = loadsStarted e \<and> imageCache e' = imageCache e \<and>
     damageCalls e \<le> damageCalls e' \<and> damageCalls e' \<le> damageCalls e + 1"
  unfolding resizeFromImage_def
  by (auto split: option.splits if_splits dest!: Region_set_size_flags)

lemma resizeFromImage_no_image:
  "reg_image r = None \<Longrightarrow> resizeFromImage (r, e) = (r, e)"
  by (simp add: resizeFromImage_def)

text \<open>The three ways through \<open>_startImageLoad\<close>.\<close>

lemma startImageLoad_empty:
  assumes "reg_imageLoc r = []"
  shows "startImageLoad (r, e) =
           (r\<lparr>reg_image := None, reg_loaded := True, reg_loadError := False\<rparr>,
            Region_damage (r\<lparr>reg_image := None, reg_loaded := True, reg_loadError := False\<rparr>) e)"
  using assms by (simp add: startImageLoad_def Let_def resizeFromImage_no_image)

lemma startImageLoad_cached:
  assumes "reg_imageLoc r \<noteq> []" and "imageCache e (reg_imageLoc r) = Some c"
    and "startImageLoad (r, e) = (r', e')"
  shows "reg_loaded r' \<and> \<not> reg_loadError r' \<and> reg_image r' = c \<and>
         reg_imageLoc r' = reg_imageLoc r \<and>
         loadsStarted e' = loadsStarted e \<and> imageCache e' = imageCache e \<and>
         damageCalls e + 1 \<le> damageCalls e' \<and> damageCalls e' \<le> damageCalls e + 2"
proof -
  let ?r1 = "r\<lparr>reg_image := c, reg_loaded := True, reg_loadError := False\<rparr>"
  obtain r2 e2 where res: "resizeFromImage (?r1, e) = (r2, e2)"
    by (cases "resizeFromImage (?r1, e)") auto
  from assms res have out: "r' = r2" "e' = Region_damage r2 e2"
    by (auto simp add: startImageLoad_def Let_def imageIsCached_def imageFromCache_def)
  from resizeFromImage_flags [OF res] show ?thesis
    by (simp add: out damageCalls_Region_damage loadsStarted_Region_damage
        imageCache_Region_damage)
qed

lemma startImageLoad_uncached:
  assumes "reg_imageLoc r \<noteq> []" and "imageCache e (reg_imageLoc r) = None"
    and "startImageLoad (r, e) = (r', e')"
  shows "r' = r\<lparr>reg_image := Some (nextImage e), reg_loaded := False, reg_loadError := False\<rparr> \<and>
         loadsStarted e' = loadsStarted e @ [(nextImage e, reg_imageLoc r)] \<and>
         imageCache e' = imageCache e \<and> damageCalls e' = damageCalls e"
  using assms by (auto simp add: startImageLoad_def Let_def imageIsCached_def)

lemma startImageLoad_inv:
  assumes "startImageLoad (r, e) = (r', e')"
  shows "reg_loadError r' \<longrightarrow> reg_loaded r'"
proof (cases "reg_imageLoc r = []")
  case True
  with assms show ?thesis by (auto simp add: startImageLoad_empty)
next
  case False
  show ?thesis
  proof (cases "imageCache e (reg_imageLoc r)")
    case None
    from startImageLoad_uncached [OF False None assms] show ?thesis by simp
  next
    case (Some c)
    from startImageLoad_cached [OF False Some assms] show ?thesis by simp
  qed
qed

lemma img_onerror_flags:
  "reg_loaded (fst (img_onerror img (r, e))) \<and> reg_loadError (fst (img_onerror img (r, e)))"
  by (simp add: img_onerror_def Let_def)

lemma img_onload_loaded: "reg_loaded (fst (img_onload img width height (r, e)))"
proof -
  let ?e1 = "e\<lparr>images := (images e)(img := (images e img)\<lparr>img_width := width, img_height := height\<rparr>)\<rparr>"
  obtain r2 e2 where res: "resizeFromImage (r\<lparr>reg_loaded := True\<rparr>, ?e1) = (r2, e2)"
    by (cases "resizeFromImage (r\<lparr>reg_loaded := True\<rparr>, ?e1)") auto
  from resizeFromImage_flags [OF res] have "reg_loaded r2" by simp
  with res show ?thesis
    by (simp add: img_onload_def Let_def afterAwait_def)
qed

text \<open>
  C4 (amended). \<open>Region.pick\<close> returns true exactly for the points of the closed
  box \<open>0 \<le> x \<le> w\<close>, \<open>0 \<le> y \<le> h\<close>. The four corner points \<open>(0,0)\<close>, \<open>(w,0)\<close>,
  \<open>(0,h)\<close>, \<open>(w,h)\<close> are all picked exactly when neither the width nor the height
  is negative.
\<close>

theorem Region_pick_closed_box:
  "(Region_pick r x y \<longleftrightarrow> 0 \<le> x \<and> x \<le> reg_w r \<and> 0 \<le> y \<and> y \<le> reg_h r) \<and>
   ((0 \<le> reg_w r \<and> 0 \<le> reg_h r) \<longleftrightarrow>
      (Region_pick r 0 0 \<and> Region_pick r (reg_w r) 0 \<and>
       Region_pick r 0 (reg_h r) \<and> Region_pick r (reg_w r) (reg_h r)))"
  by (auto simp add: Region_pick_def)

text \<open>C4 as stated fails for a region whose width has been set to \<open>-1\<close>: the point
  \<open>(0,0)\<close> is not picked.\<close>

theorem Region_pick_corner_counterexample:
  "\<not> Region_pick (fst (Region_set_w (- 1) (Region_new ''r'' [] 0 0 10 10 None initialEnv))) 0 0"
  by (simp add: Region_pick_def Region_set_w_def Region_new_def startImageLoad_def
      resizeFromImage_def Let_def initialEnv_def)

text \<open>
  C9. In every state a Region can reach, after its construction and after every
  assignment and every load event, \<open>loadError\<close> implies \<open>loaded\<close>.
\<close>

theorem loadError_implies_loaded:
  "reachable (r, e) \<Longrightarrow> reg_loadError r \<longrightarrow> reg_loaded r"
proof -
  have "reachable s \<Longrightarrow> reg_loadError (fst s) \<longrightarrow> reg_loaded (fst s)" for s
  proof (induction rule: reachable.induct)
    case (r_new name imageLoc x y w h parent e)
    show ?case
      unfolding Region_new_def Let_def
      using startImageLoad_inv by (metis prod.collapse)
  next
    case (r_set_x s v)
    from r_set_x.IH show ?case
      by (cases s rule: prod.exhaust) (simp add: Region_set_x_def Let_def)
  next
    case (r_set_y s v)
    from r_set_y.IH show ?case
      by (cases s rule: prod.exhaust) (simp add: Region_set_y_def Let_def)
  next
    case (r_set_w s v)
    from r_set_w.IH show ?case
      by (cases s rule: prod.exhaust) (simp add: Region_set_w_def Let_def)
  next
    case (r_set_h s v)
    from r_set_h.IH show ?case
      by (cases s rule: prod.exhaust) (simp add: Region_set_h_def Let_def)
  next
    case (r_set_size s wh)
    from r_set_size.IH show ?case
      by (cases s rule: prod.exhaust) (simp add: Region_set_size_def Let_def)
  next
    case (r_set_parent s p)
    from r_set_parent.IH show ?case
      by (cases s rule: prod.exhaust) (simp add: Region_set_parent_def Let_def)
  next
    case (r_set_imageLoc s loc)
    show ?case
    proof (cases s rule: prod.exhaust)
      case (Pair r0 e0)
      show ?thesis
      proof (cases "loc \<noteq> reg_imageLoc r0")
        case True
        then have "Region_set_imageLoc loc s = startImageLoad (r0\<lparr>reg_imageLoc := loc\<rparr>, e0)"
          by (simp add: Pair Region_set_imageLoc_def)
        then show ?thesis using startImageLoad_inv by (metis prod.collapse)
      next
        case False
        with r_set_imageLoc.IH show ?thesis by (simp add: Pair Region_set_imageLoc_def)
      qed
    qed
  next
    case (r_onload s img width height)
    show ?case by (cases s rule: prod.exhaust) (simp add: img_onload_loaded)
  next
    case (r_onerror s img)
    show ?case by (cases s rule: prod.exhaust) (simp add: img_onerror_flags)
  next
    case (r_moved r e a b)
    then show ?case by simp
  next
    case (r_env r e e')
    then show ?case by simp
  qed
  from this [of "(r, e)"] show "reachable (r, e) \<Longrightarrow> reg_loadError r \<longrightarrow> reg_loaded r" by simp
qed

text \<open>C9, at a state with \<open>loadError\<close> set: a region whose load of \<open>L.png\<close> has failed.\<close>

theorem loadError_implies_loaded_witness:
  "reg_loadError (fst (img_onerror 0 (Region_new ''a'' ''L.png'' 0 0 10 10 None initialEnv))) \<and>
   reg_loaded (fst (img_onerror 0 (Region_new ''a'' ''L.png'' 0 0 10 10 None initialEnv)))"
proof -
  have reach: "reachable (img_onerror 0 (Region_new ''a'' ''L.png'' 0 0 10 10 None initialEnv))"
    by (intro reachable.intros)
  have err: "reg_loadError (fst (img_onerror 0 (Region_new ''a'' ''L.png'' 0 0 10 10 None initialEnv)))"
    by (cases "Region_new ''a'' ''L.png'' 0 0 10 10 None initialEnv") (simp add: img_onerror_def Let_def)
  from loadError_implies_loaded [of "fst (img_onerror 0 (Region_new ''a'' ''L.png'' 0 0 10 10 None initialEnv))"
      "snd (img_onerror 0 (Region_new ''a'' ''L.png'' 0 0 10 10 None initialEnv))"] reach err
  show ?thesis by simp
qed

text \<open>The setters, case by case.\<close>

lemma Region_set_x_same: "reg_x r = v \<Longrightarrow> Region_set_x v (r, e) = (r, e)"
  by (simp add: Region_set_x_def)

lemma Region_set_x_new:
  "reg_x r \<noteq> v \<Longrightarrow> fst (Region_set_x v (r, e)) = r\<lparr>reg_x := v\<rparr> \<and>
     damageCalls (snd (Region_set_x v (r, e))) = damageCalls e + 1"
  by (simp add: Region_set_x_def Let_def damageCalls_Region_damage)

lemma Region_set_y_same: "reg_y r = v \<Longrightarrow> Region_set_y v (r, e) = (r, e)"
  by (simp add: Region_set_y_def)

lemma Region_set_y_new:
  "reg_y r \<noteq> v \<Longrightarrow> fst (Region_set_y v (r, e)) = r\<lparr>reg_y := v\<rparr> \<and>
     damageCalls (snd (Region_set_y v (r, e))) = damageCalls e + 1"
  by (simp add: Region_set_y_def Let_def damageCalls_Region_damage)

lemma Region_set_w_same: "reg_w r = v \<Longrightarrow> Region_set_w v (r, e) = (r, e)"
  by (simp add: Region_set_w_def)

lemma Region_set_w_new:
  "reg_w r \<noteq> v \<Longrightarrow> fst (Region_set_w v (r, e)) = r\<lparr>reg_w := v\<rparr> \<and>
     damageCalls (snd (Region_set_w v (r, e))) = damageCalls e + 1"
  by (simp add: Region_set_w_def Let_def damageCalls_Region_damage)

lemma Region_set_h_same: "reg_h r = v \<Longrightarrow> Region_set_h v (r, e) = (r, e)"
  by (simp add: Region_set_h_def)

lemma Region_set_h_new:
  "reg_h r \<noteq> v \<Longrightarrow> fst (Region_set_h v (r, e)) = r\<lparr>reg_h := v\<rparr> \<and>
     damageCalls (snd (Region_set_h v (r, e))) = damageCalls e + 1"
  by (simp add: Region_set_h_def Let_def damageCalls_Region_damage)

lemma Region_set_parent_same: "reg_parent r = v \<Longrightarrow> Region_set_parent v (r, e) = (r, e)"
  by (simp add: Region_set_parent_def)

lemma Region_set_parent_new:
  "reg_parent r \<noteq> v \<Longrightarrow> fst (Region_set_parent v (r, e)) = r\<lparr>reg_parent := v\<rparr> \<and>
     damageCalls (snd (Region_set_parent v (r, e))) = damageCalls e + 1"
  by (simp add: Region_set_parent_def Let_def damageCalls_Region_damage)

lemma Region_set_imageLoc_same:
  "reg_imageLoc r = v \<Longrightarrow> Region_set_imageLoc v (r, e) = (r, e)"
  by (simp add: Region_set_imageLoc_def)

lemma Region_set_imageLoc_empty:
  assumes "reg_imageLoc r \<noteq> []"
  shows "fst (Region_set_imageLoc [] (r, e)) =
           r\<lparr>reg_imageLoc := [], reg_image := None, reg_loaded := True, reg_loadError := False\<rparr> \<and>
         damageCalls (snd (Region_set_imageLoc [] (r, e))) = damageCalls e + 1 \<and>
         loadsStarted (snd (Region_set_imageLoc [] (r, e))) = loadsStarted e"
  using assms
  by (simp add: Region_set_imageLoc_def startImageLoad_empty damageCalls_Region_damage
      loadsStarted_Region_damage)

lemma Region_set_imageLoc_cached:
  assumes "reg_imageLoc r \<noteq> v" and "v \<noteq> []" and "imageCache e v = Some c"
  shows "reg_imageLoc (fst (Region_set_imageLoc v (r, e))) = v \<and>
         reg_image (fst (Region_set_imageLoc v (r, e))) = c \<and>
         reg_loaded (fst (Region_set_imageLoc v (r, e))) \<and>
         \<not> reg_loadError (fst (Region_set_imageLoc v (r, e))) \<and>
         damageCalls e + 1 \<le> damageCalls (snd (Region_set_imageLoc v (r, e))) \<and>
         damageCalls (snd (Region_set_imageLoc v (r, e))) \<le> damageCalls e + 2 \<and>
         loadsStarted (snd (Region_set_imageLoc v (r, e))) = loadsStarted e"
proof -
  have eq: "Region_set_imageLoc v (r, e) = startImageLoad (r\<lparr>reg_imageLoc := v\<rparr>, e)"
    using assms(1) by (simp add: Region_set_imageLoc_def)
  obtain r' e' where res: "startImageLoad (r\<lparr>reg_imageLoc := v\<rparr>, e) = (r', e')"
    by (cases "startImageLoad (r\<lparr>reg_imageLoc := v\<rparr>, e)") auto
  from startImageLoad_cached [of "r\<lparr>reg_imageLoc := v\<rparr>" e c r' e'] assms res
  show ?thesis by (simp add: eq)
qed

lemma Region_set_imageLoc_uncached:
  assumes "reg_imageLoc r \<noteq> v" and "v \<noteq> []" and "imageCache e v = None"
  shows "fst (Region_set_imageLoc v (r, e)) =
           r\<lparr>reg_imageLoc := v, reg_image := Some (nextImage e), reg_loaded := False,
              reg_loadError := False\<rparr> \<and>
         damageCalls (snd (Region_set_imageLoc v (r, e))) = damageCalls e \<and>
         loadsStarted (snd (Region_set_imageLoc v (r, e))) = loadsStarted e @ [(nextImage e, v)]"
proof -
  have eq: "Region_set_imageLoc v (r, e) = startImageLoad (r\<lparr>reg_imageLoc := v\<rparr>, e)"
    using assms(1) by (simp add: Region_set_imageLoc_def)
  obtain r' e' where res: "startImageLoad (r\<lparr>reg_imageLoc := v\<rparr>, e) = (r', e')"
    by (cases "startImageLoad (r\<lparr>reg_imageLoc := v\<rparr>, e)") auto
  from startImageLoad_uncached [of "r\<lparr>reg_imageLoc := v\<rparr>" e r' e'] assms res
  show ?thesis by (simp add: eq)
qed

lemma img_onload_damage:
  "damageCalls e + 1 \<le> damageCalls (snd (img_onload img width height (r, e)))"
proof -
  let ?e1 = "e\<lparr>images := (images e)(img := (images e img)\<lparr>img_width := width, img_height := height\<rparr>)\<rparr>"
  obtain r2 e2 where res: "resizeFromImage (r\<lparr>reg_loaded := True\<rparr>, ?e1) = (r2, e2)"
    by (cases "resizeFromImage (r\<lparr>reg_loaded := True\<rparr>, ?e1)") auto
  from resizeFromImage_flags [OF res] have "damageCalls e \<le> damageCalls e2" by simp
  with res show ?thesis
    by (simp add: img_onload_def Let_def afterAwait_def cacheImage_def damageCalls_Region_damage)
qed

lemma Region_new_cached:
  assumes "L \<noteq> []" and "imageCache e L = Some c"
  shows "reg_loaded (fst (Region_new name L x y w h parent e)) \<and>
         \<not> reg_loadError (fst (Region_new name L x y w h parent e)) \<and>
         reg_image (fst (Region_new name L x y w h parent e)) = c \<and>
         loadsStarted (snd (Region_new name L x y w h parent e)) = loadsStarted e \<and>
         imageCache (snd (Region_new name L x y w h parent e)) = imageCache e"
proof -
  let ?r = "\<lparr>reg_name = name, reg_parent = parent, reg_imageLoc = L,
               reg_x = x, reg_y = y, reg_w = (if w < 0 then 0 else w), reg_h = (if h < 0 then 0 else h),
               reg_loaded = False, reg_loadError = False,
               reg_resizedByImage = ((w < 0) \<or> (h < 0)), reg_image = None\<rparr>"
  have eq: "Region_new name L x y w h parent e = startImageLoad (?r, e)"
    by (simp add: Region_new_def Let_def)
  obtain r' e' where res: "startImageLoad (?r, e) = (r', e')"
    by (cases "startImageLoad (?r, e)") auto
  from startImageLoad_cached [of ?r e c r' e'] assms res
  show ?thesis by (simp add: eq)
qed

text \<open>
  The setters where no load fails. Assigning to \<open>x\<close>, \<open>y\<close>, \<open>w\<close>, \<open>h\<close>, \<open>parent\<close> or
  \<open>imageLoc\<close> a value equal to the current one changes neither the Region nor
  its environment: no \<open>damage()\<close> call, no load. Assigning a different value to
  \<open>x\<close>, \<open>y\<close>, \<open>w\<close>, \<open>h\<close> or \<open>parent\<close> stores it and calls \<open>damage()\<close> exactly once.
  Assigning a different \<open>imageLoc\<close> stores it and starts the load: for the empty
  location and for a cached one \<open>damage()\<close> is called, once or twice, before
  the assignment returns, and no load is started; for a location that is not
  cached a load is started, \<open>loaded\<close> is false, and \<open>damage()\<close> is called when the
  image has been loaded.
\<close>

lemma Region_setters_damage:
  "(reg_x r = vx \<longrightarrow> Region_set_x vx (r, e) = (r, e)) \<and>
   (reg_x r \<noteq> vx \<longrightarrow> fst (Region_set_x vx (r, e)) = r\<lparr>reg_x := vx\<rparr> \<and>
        damageCalls (snd (Region_set_x vx (r, e))) = damageCalls e + 1) \<and>
   (reg_y r = vy \<longrightarrow> Region_set_y vy (r, e) = (r, e)) \<and>
   (reg_y r \<noteq> vy \<longrightarrow> fst (Region_set_y vy (r, e)) = r\<lparr>reg_y := vy\<rparr> \<and>
        damageCalls (snd (Region_set_y vy (r, e))) = damageCalls e + 1) \<and>
   (reg_w r = vw \<longrightarrow> Region_set_w vw (r, e) = (r, e)) \<and>
   (reg_w r \<noteq> vw \<longrightarrow> fst (Region_set_w vw (r, e)) = r\<lparr>reg_w := vw\<rparr> \<and>
        damageCalls (snd (Region_set_w vw (r, e))) = damageCalls e + 1) \<and>
   (reg_h r = vh \<longrightarrow> Region_set_h vh (r, e) = (r, e)) \<and>
   (reg_h r \<noteq> vh \<longrightarrow> fst (Region_set_h vh (r, e)) = r\<lparr>reg_h := vh\<rparr> \<and>
        damageCalls (snd (Region_set_h vh (r, e))) = damageCalls e + 1) \<and>
   (reg_parent r = vp \<longrightarrow> Region_set_parent vp (r, e) = (r, e)) \<and>
   (reg_parent r \<noteq> vp \<longrightarrow> fst (Region_set_parent vp (r, e)) = r\<lparr>reg_parent := vp\<rparr> \<and>
        damageCalls (snd (Region_set_parent vp (r, e))) = damageCalls e + 1) \<and>
   (reg_imageLoc r = v \<longrightarrow> Region_set_imageLoc v (r, e) = (r, e)) \<and>
   (reg_imageLoc r \<noteq> v \<longrightarrow> reg_imageLoc (fst (Region_set_imageLoc v (r, e))) = v) \<and>
   (reg_imageLoc r \<noteq> v \<and> (v = [] \<or> imageCache e v \<noteq> None) \<longrightarrow>
        reg_loaded (fst (Region_set_imageLoc v (r, e))) \<and>
        damageCalls e + 1 \<le> damageCalls (snd (Region_set_imageLoc v (r, e))) \<and>
        damageCalls (snd (Region_set_imageLoc v (r, e))) \<le> damageCalls e + 2 \<and>
        loadsStarted (snd (Region_set_imageLoc v (r, e))) = loadsStarted e) \<and>
   (reg_imageLoc r \<noteq> v \<and> v \<noteq> [] \<and> imageCache e v = None \<longrightarrow>
        \<not> reg_loaded (fst (Region_set_imageLoc v (r, e))) \<and>
        damageCalls (snd (Region_set_imageLoc v (r, e))) = damageCalls e \<and>
        loadsStarted (snd (Region_set_imageLoc v (r, e))) = loadsStarted e @ [(nextImage e, v)] \<and>
        damageCalls e + 1 \<le>
          damageCalls (snd (img_onload (nextImage e) width height (Region_set_imageLoc v (r, e)))))"
proof -
  have img1: "reg_imageLoc r \<noteq> v \<longrightarrow> reg_imageLoc (fst (Region_set_imageLoc v (r, e))) = v"
  proof (cases "v = []")
    case True
    then show ?thesis using Region_set_imageLoc_empty [of r e] by simp
  next
    case False
    show ?thesis
    proof (cases "imageCache e v")
      case None
      with False show ?thesis using Region_set_imageLoc_uncached [of r v e] by simp
    next
      case (Some c)
      with False show ?thesis using Region_set_imageLoc_cached [of r v e c] by simp
    qed
  qed
  have img2: "reg_imageLoc r \<noteq> v \<and> (v = [] \<or> imageCache e v \<noteq> None) \<longrightarrow>
        reg_loaded (fst (Region_set_imageLoc v (r, e))) \<and>
        damageCalls e + 1 \<le> damageCalls (snd (Region_set_imageLoc v (r, e))) \<and>
        damageCalls (snd (Region_set_imageLoc v (r, e))) \<le> damageCalls e + 2 \<and>
        loadsStarted (snd (Region_set_imageLoc v (r, e))) = loadsStarted e"
  proof (cases "v = []")
    case True
    then show ?thesis using Region_set_imageLoc_empty [of r e] by simp
  next
    case False
    show ?thesis
    proof (cases "imageCache e v")
      case None
      with False show ?thesis by simp
    next
      case (Some c)
      with False show ?thesis using Region_set_imageLoc_cached [of r v e c] by simp
    qed
  qed
  have img3: "reg_imageLoc r \<noteq> v \<and> v \<noteq> [] \<and> imageCache e v = None \<longrightarrow>
        \<not> reg_loaded (fst (Region_set_imageLoc v (r, e))) \<and>
        damageCalls (snd (Region_set_imageLoc v (r, e))) = damageCalls e \<and>
        loadsStarted (snd (Region_set_imageLoc v (r, e))) = loadsStarted e @ [(nextImage e, v)] \<and>
        damageCalls e + 1 \<le>
          damageCalls (snd (img_onload (nextImage e) width height (Region_set_imageLoc v (r, e))))"
  proof (intro impI)
    assume a: "reg_imageLoc r \<noteq> v \<and> v \<noteq> [] \<and> imageCache e v = None"
    then have u: "fst (Region_set_imageLoc v (r, e)) =
           r\<lparr>reg_imageLoc := v, reg_image := Some (nextImage e), reg_loaded := False,
              reg_loadError := False\<rparr> \<and>
         damageCalls (snd (Region_set_imageLoc v (r, e))) = damageCalls e \<and>
         loadsStarted (snd (Region_set_imageLoc v (r, e))) = loadsStarted e @ [(nextImage e, v)]"
      using Region_set_imageLoc_uncached [of r v e] by blast
    have "damageCalls (snd (Region_set_imageLoc v (r, e))) + 1 \<le>
          damageCalls (snd (img_onload (nextImage e) width height (Region_set_imageLoc v (r, e))))"
      using img_onload_damage [of "snd (Region_set_imageLoc v (r, e))" "nextImage e" width height
        "fst (Region_set_imageLoc v (r, e))"] by simp
    with u show "\<not> reg_loaded (fst (Region_set_imageLoc v (r, e))) \<and>
        damageCalls (snd (Region_set_imageLoc v (r, e))) = damageCalls e \<and>
        loadsStarted (snd (Region_set_imageLoc v (r, e))) = loadsStarted e @ [(nextImage e, v)] \<and>
        damageCalls e + 1 \<le>
          damageCalls (snd (img_onload (nextImage e) width height (Region_set_imageLoc v (r, e))))"
      by simp
  qed
  show ?thesis
    using Region_set_x_same [of r vx e] Region_set_x_new [of r vx e]
      Region_set_y_same [of r vy e] Region_set_y_new [of r vy e]
      Region_set_w_same [of r vw e] Region_set_w_new [of r vw e]
      Region_set_h_same [of r vh e] Region_set_h_new [of r vh e]
      Region_set_parent_same [of r vp e] Region_set_parent_new [of r vp e]
      Region_set_imageLoc_same [of r v e] img1 img2 img3
    by blast
qed


text \<open>
  C7, where the code departs from it. A region without image is given the
  uncached location \<open>a.png\<close>, a value different from its own, and the load of
  \<open>a.png\<close> fails. The value is stored, but \<open>damage()\<close> is never called: not by the
  assignment, and not on the failure, because the rejected promise ends
  \<open>_startImageLoad\<close> before the \<open>damage()\<close> call that follows the \<open>await\<close>. The
  constructor's comment says that \<open>damage()\<close> is called when the load is
  complete, and the comment before those statements, "once we are finally
  loaded (or failed)", counts the failure in.
\<close>

theorem failed_load_no_damage:
  "reg_imageLoc (fst (Region_new ''r'' [] 0 0 10 10 (Some 3) initialEnv)) = [] \<and>
   reg_imageLoc (fst (Region_set_imageLoc ''a.png'' (Region_new ''r'' [] 0 0 10 10 (Some 3) initialEnv))) = ''a.png'' \<and>
   damageCalls (snd (Region_set_imageLoc ''a.png'' (Region_new ''r'' [] 0 0 10 10 (Some 3) initialEnv))) =
   damageCalls (snd (Region_new ''r'' [] 0 0 10 10 (Some 3) initialEnv)) \<and>
   damageCalls (snd (img_onerror 0
       (Region_set_imageLoc ''a.png'' (Region_new ''r'' [] 0 0 10 10 (Some 3) initialEnv)))) =
   damageCalls (snd (Region_new ''r'' [] 0 0 10 10 (Some 3) initialEnv))"
  by (simp add: Region_set_imageLoc_def Region_new_def startImageLoad_def resizeFromImage_def
      Region_damage_def imageIsCached_def img_onerror_def Err_emit_def Let_def initialEnv_def)

text \<open>The setters at a region with \<open>x = 0\<close> and no image, in the initial
  environment.\<close>

lemma Region_setters_damage_example:
  "fst (Region_set_x 5 (noRegion, initialEnv)) = noRegion\<lparr>reg_x := 5\<rparr> \<and>
   damageCalls (snd (Region_set_x 5 (noRegion, initialEnv))) = 1 \<and>
   Region_set_x 0 (noRegion, initialEnv) = (noRegion, initialEnv) \<and>
   Region_set_imageLoc [] (noRegion, initialEnv) = (noRegion, initialEnv) \<and>
   \<not> reg_loaded (fst (Region_set_imageLoc ''a.png'' (noRegion, initialEnv))) \<and>
   damageCalls (snd (Region_set_imageLoc ''a.png'' (noRegion, initialEnv))) = 0 \<and>
   loadsStarted (snd (Region_set_imageLoc ''a.png'' (noRegion, initialEnv))) = [(0, ''a.png'')] \<and>
   1 \<le> damageCalls (snd (img_onload 0 30 40 (Region_set_imageLoc ''a.png'' (noRegion, initialEnv))))"
  using Region_setters_damage [of noRegion 5 initialEnv 0 0 0 None "[]" 30 40]
    Region_setters_damage [of noRegion 0 initialEnv 0 0 0 None "''a.png''" 30 40]
  by (simp add: noRegion_def initialEnv_def)

text \<open>
  A failed load sets \<open>loaded\<close> and \<open>loadError\<close> of its Region. A Region that
  requests a location under which the cache holds an entry, an image or the
  absent result, through its constructor or through \<open>imageLoc\<close>, ends at once
  with \<open>loaded\<close> true, \<open>loadError\<close> false and the cached entry as its image, and no
  load is started.
\<close>

lemma cached_location_adopted:
  "reg_loaded (fst (img_onerror img (r, e))) \<and> reg_loadError (fst (img_onerror img (r, e))) \<and>
   (L \<noteq> [] \<and> imageCache e L = Some c \<longrightarrow>
      reg_loaded (fst (Region_new name L x y w h parent e)) \<and>
      \<not> reg_loadError (fst (Region_new name L x y w h parent e)) \<and>
      reg_image (fst (Region_new name L x y w h parent e)) = c \<and>
      loadsStarted (snd (Region_new name L x y w h parent e)) = loadsStarted e) \<and>
   (L \<noteq> [] \<and> imageCache e L = Some c \<and> reg_imageLoc r \<noteq> L \<longrightarrow>
      reg_loaded (fst (Region_set_imageLoc L (r, e))) \<and>
      \<not> reg_loadError (fst (Region_set_imageLoc L (r, e))) \<and>
      reg_image (fst (Region_set_imageLoc L (r, e))) = c \<and>
      loadsStarted (snd (Region_set_imageLoc L (r, e))) = loadsStarted e)"
  using img_onerror_flags [of img r e] Region_new_cached [of L e c name x y w h parent]
    Region_set_imageLoc_cached [of r L e c]
  by blast

text \<open>
  C2, where the code departs from it. The load of \<open>L.png\<close> for region \<open>a\<close> fails,
  which sets both flags of \<open>a\<close>. The cache is left without an entry for
  \<open>L.png\<close>, because the rejected promise ends \<open>_startImageLoad\<close> before the image
  is cached. Region \<open>b\<close>, created afterwards with the same location, starts a
  second load and has neither flag set. The comments of \<open>_startImageLoad\<close> say
  that an image which fails to load is marked as such in the cache and never
  loads again.
\<close>

theorem failed_load_not_cached:
  "reg_loaded (fst (img_onerror 0 (Region_new ''a'' ''L.png'' 0 0 10 10 None initialEnv))) \<and>
   reg_loadError (fst (img_onerror 0 (Region_new ''a'' ''L.png'' 0 0 10 10 None initialEnv))) \<and>
   imageCache (snd (img_onerror 0 (Region_new ''a'' ''L.png'' 0 0 10 10 None initialEnv))) ''L.png'' = None \<and>
   \<not> reg_loaded (fst (Region_new ''b'' ''L.png'' 0 0 10 10 None
        (snd (img_onerror 0 (Region_new ''a'' ''L.png'' 0 0 10 10 None initialEnv))))) \<and>
   \<not> reg_loadError (fst (Region_new ''b'' ''L.png'' 0 0 10 10 None
        (snd (img_onerror 0 (Region_new ''a'' ''L.png'' 0 0 10 10 None initialEnv))))) \<and>
   loadsStarted (snd (Region_new ''b'' ''L.png'' 0 0 10 10 None
        (snd (img_onerror 0 (Region_new ''a'' ''L.png'' 0 0 10 10 None initialEnv))))) =
     [(0, ''L.png''), (1, ''L.png'')]"
  by (simp add: img_onerror_def Region_new_def startImageLoad_def resizeFromImage_def
      Region_damage_def imageIsCached_def Err_emit_def Let_def initialEnv_def)

text \<open>A cache that holds the absent result under \<open>L.png\<close>.\<close>

lemma cached_location_adopted_example:
  "reg_loaded (fst (Region_new ''b'' ''L.png'' 0 0 10 10 None (cacheImage ''L.png'' None initialEnv))) \<and>
   \<not> reg_loadError (fst (Region_new ''b'' ''L.png'' 0 0 10 10 None (cacheImage ''L.png'' None initialEnv))) \<and>
   reg_image (fst (Region_new ''b'' ''L.png'' 0 0 10 10 None (cacheImage ''L.png'' None initialEnv))) = None \<and>
   loadsStarted (snd (Region_new ''b'' ''L.png'' 0 0 10 10 None (cacheImage ''L.png'' None initialEnv))) = []"
  using cached_location_adopted [of 0 noRegion "cacheImage ''L.png'' None initialEnv" "''L.png''" None
      "''b''" 0 0 10 10 None]
  by (simp add: cacheImage_def initialEnv_def noRegion_def)

section \<open>Properties of the interactor\<close>

lemma unshift_loop:
  "fold (\<lambda>region pickList. if P region then region # pickList else pickList) xs acc =
     rev (filter P xs) @ acc"
  by (induction xs arbitrary: acc) simp_all

lemma FSMInteractor_pick_eq:
  assumes "fsm it = Some f"
  shows "FSMInteractor_pick hp it localX localY =
           rev (filter (\<lambda>r. Region_pick (hp r) (localX - reg_x (hp r)) (localY - reg_y (hp r)))
                  (regions f))"
  using assms by (simp add: FSMInteractor_pick_def Let_def unshift_loop)

lemma FSMInteractor_pick_subseq:
  assumes "fsm it = Some f"
  shows "subseq (FSMInteractor_pick hp it localX localY) (rev (regions f))"
  by (simp add: FSMInteractor_pick_eq [OF assms] rev_filter)

lemma forEach_actOnEvent_received:
  "received (forEach_actOnEvent react evtType evt xs f) =
     received f @ map (\<lambda>x. ActOnEvent evtType (Some x) evt) xs \<and>
   regions (forEach_actOnEvent react evtType evt xs f) = regions f"
  unfolding forEach_actOnEvent_def
  by (induction xs arbitrary: f) (simp_all add: actOnEvent_def)

lemma dispatchRawEvent_fsm:
  assumes "fsm it = Some f"
  shows "\<exists>f'. fsm (dispatchRawEvent react hp what localX localY evt it) = Some f' \<and>
           regions f' = regions f \<and>
           received f' = received f
             @ map (\<lambda>r. ActOnEvent exit (Some r) None)
                 (filter (\<lambda>r. r \<notin> set (FSMInteractor_pick hp it localX localY)) (bookkeeping it))
             @ map (\<lambda>r. ActOnEvent enter (Some r) None)
                 (filter (\<lambda>r. r \<notin> set (bookkeeping it)) (FSMInteractor_pick hp it localX localY))
             @ (case what of
                  raw_press \<Rightarrow> map (\<lambda>r. ActOnEvent press (Some r) None)
                                 (FSMInteractor_pick hp it localX localY)
                | raw_move \<Rightarrow> map (\<lambda>r. ActOnEvent move_inside (Some r) None)
                                (FSMInteractor_pick hp it localX localY)
                | raw_release \<Rightarrow>
                    if FSMInteractor_pick hp it localX localY = []
                    then [ActOnEvent release_none None None]
                    else map (\<lambda>r. ActOnEvent release (Some r) None)
                           (FSMInteractor_pick hp it localX localY)
                | raw_rightClick \<Rightarrow> map (\<lambda>r. ActOnEvent rightClick (Some r) (Some evt))
                                      (FSMInteractor_pick hp it localX localY))"
  using assms
  by (cases what)
     (simp_all add: dispatchRawEvent_def Let_def FSMInteractor_damage_def array_includes_def
        forEach_actOnEvent_received actOnEvent_def)

lemma dispatchRawEvent_bookkeeping:
  assumes "fsm it = Some f"
  shows "bookkeeping (dispatchRawEvent react hp what localX localY evt it) =
           FSMInteractor_pick hp it localX localY"
  using assms by (simp add: dispatchRawEvent_def Let_def FSMInteractor_damage_def)

lemma forwarded_eq:
  assumes "fsm it = Some f"
  shows "forwarded react hp what localX localY evt it =
             map (\<lambda>r. ActOnEvent exit (Some r) None)
                 (filter (\<lambda>r. r \<notin> set (FSMInteractor_pick hp it localX localY)) (bookkeeping it))
             @ map (\<lambda>r. ActOnEvent enter (Some r) None)
                 (filter (\<lambda>r. r \<notin> set (bookkeeping it)) (FSMInteractor_pick hp it localX localY))
             @ (case what of
                  raw_press \<Rightarrow> map (\<lambda>r. ActOnEvent press (Some r) None)
                                 (FSMInteractor_pick hp it localX localY)
                | raw_move \<Rightarrow> map (\<lambda>r. ActOnEvent move_inside (Some r) None)
                                (FSMInteractor_pick hp it localX localY)
                | raw_release \<Rightarrow>
                    if FSMInteractor_pick hp it localX localY = []
                    then [ActOnEvent release_none None None]
                    else map (\<lambda>r. ActOnEvent release (Some r) None)
                           (FSMInteractor_pick hp it localX localY)
                | raw_rightClick \<Rightarrow> map (\<lambda>r. ActOnEvent rightClick (Some r) (Some evt))
                                      (FSMInteractor_pick hp it localX localY))"
proof -
  from dispatchRawEvent_fsm [OF assms, of react hp what localX localY evt]
  obtain f' where f': "fsm (dispatchRawEvent react hp what localX localY evt it) = Some f'"
    and rec: "received f' = received f
             @ map (\<lambda>r. ActOnEvent exit (Some r) None)
                 (filter (\<lambda>r. r \<notin> set (FSMInteractor_pick hp it localX localY)) (bookkeeping it))
             @ map (\<lambda>r. ActOnEvent enter (Some r) None)
                 (filter (\<lambda>r. r \<notin> set (bookkeeping it)) (FSMInteractor_pick hp it localX localY))
             @ (case what of
                  raw_press \<Rightarrow> map (\<lambda>r. ActOnEvent press (Some r) None)
                                 (FSMInteractor_pick hp it localX localY)
                | raw_move \<Rightarrow> map (\<lambda>r. ActOnEvent move_inside (Some r) None)
                                (FSMInteractor_pick hp it localX localY)
                | raw_release \<Rightarrow>
                    if FSMInteractor_pick hp it localX localY = []
                    then [ActOnEvent release_none None None]
                    else map (\<lambda>r. ActOnEvent release (Some r) None)
                           (FSMInteractor_pick hp it localX localY)
                | raw_rightClick \<Rightarrow> map (\<lambda>r. ActOnEvent rightClick (Some r) (Some evt))
                                      (FSMInteractor_pick hp it localX localY))"
    by blast
  have "forwarded react hp what localX localY evt it = drop (length (received f)) (received f')"
    by (simp add: forwarded_def assms f')
  also have "\<dots> = drop (length (received f)) (received f @ drop (length (received f)) (received f'))"
    by (simp add: rec)
  finally show ?thesis by (simp add: rec)
qed

lemma subseq_set_subset: "subseq xs ys \<Longrightarrow> set xs \<subseteq> set ys"
  by (induction rule: list_emb.induct) auto

lemma subseq_distinct_filter:
  "subseq xs ys \<Longrightarrow> distinct ys \<Longrightarrow> xs = filter (\<lambda>x. x \<in> set xs) ys"
proof (induction rule: list_emb.induct)
  case (list_emb_Nil ys)
  then show ?case by simp
next
  case (list_emb_Cons xs ys y)
  from list_emb_Cons.hyps have "set xs \<subseteq> set ys" by (rule subseq_set_subset)
  with list_emb_Cons.prems have "y \<notin> set xs" by auto
  with list_emb_Cons show ?case by simp
next
  case (list_emb_Cons2 x y xs ys)
  from list_emb_Cons2.hyps(2) have sub: "set xs \<subseteq> set ys" by (rule subseq_set_subset)
  from list_emb_Cons2.prems list_emb_Cons2.hyps(1) have nx: "x \<notin> set ys" by simp
  have "filter (\<lambda>z. z = x \<or> z \<in> set xs) ys = filter (\<lambda>z. z \<in> set xs) ys"
    using nx by (intro filter_cong) auto
  also have "\<dots> = xs" using list_emb_Cons2.IH list_emb_Cons2.prems by simp
  finally show ?case using list_emb_Cons2.hyps(1) by simp
qed

lemma run_invariant:
  assumes "fsm it0 = Some f0" and "subseq (bookkeeping it0) (rev (regions f0))"
  shows "\<exists>f. fsm (run react frames it0) = Some f \<and> regions f = regions f0 \<and>
             subseq (bookkeeping (run react frames it0)) (rev (regions f0))"
  using assms
proof (induction frames arbitrary: it0 f0)
  case Nil
  then show ?case by simp
next
  case (Cons fr frames)
  obtain hp what localX localY evt where fr: "fr = (hp, what, localX, localY, evt)"
    by (cases fr) auto
  define it1 where "it1 = dispatchRawEvent react hp what localX localY evt it0"
  from dispatchRawEvent_fsm [OF Cons.prems(1), of react hp what localX localY evt]
  obtain f1 where f1: "fsm it1 = Some f1" and r1: "regions f1 = regions f0"
    unfolding it1_def by blast
  have "bookkeeping it1 = FSMInteractor_pick hp it0 localX localY"
    unfolding it1_def by (rule dispatchRawEvent_bookkeeping [OF Cons.prems(1)])
  with FSMInteractor_pick_subseq [OF Cons.prems(1), of hp localX localY]
  have b1: "subseq (bookkeeping it1) (rev (regions f1))"
    by (simp only: r1)
  from Cons.IH [OF f1 b1]
  obtain f where "fsm (run react frames it1) = Some f" "regions f = regions f1"
    "subseq (bookkeeping (run react frames it1)) (rev (regions f1))" by blast
  then have "fsm (run react frames it1) = Some f \<and> regions f = regions f0 \<and>
    subseq (bookkeeping (run react frames it1)) (rev (regions f0))" by (simp only: r1)
  moreover have "run react (fr # frames) it0 = run react frames it1"
    by (simp only: fr it1_def run.simps)
  ultimately show ?case by (simp only: exI [where x = f])
qed

text \<open>
  C5. With an FSM, \<open>FSMInteractor.pick\<close> returns exactly the regions \<open>R\<close> of the FSM
  for which \<open>R.pick(localX - R.x, localY - R.y)\<close> holds, in the reverse of the
  drawing order: the first element of a non-empty result is the region drawn
  last among them.
\<close>

theorem FSMInteractor_pick_reverse_drawing_order:
  assumes "fsm it = Some f"
  shows "FSMInteractor_pick hp it localX localY =
           rev (filter (\<lambda>R. Region_pick (hp R) (localX - reg_x (hp R)) (localY - reg_y (hp R)))
                  (regions f)) \<and>
         (FSMInteractor_pick hp it localX localY \<noteq> [] \<longrightarrow>
            hd (FSMInteractor_pick hp it localX localY) =
              last (filter (\<lambda>R. Region_pick (hp R) (localX - reg_x (hp R)) (localY - reg_y (hp R)))
                     (regions f)))"
  by (simp add: FSMInteractor_pick_eq [OF assms] hd_rev)

text \<open>
  C1. Take an interactor with an FSM whose bookkeeping is empty, as the
  constructor leaves it, and let it handle any sequence of raw events. The
  next call of \<open>dispatchRawEvent\<close> then gives the FSM, in this order: an \<open>exit\<close>
  event for every region of the bookkeeping that is not in the current pick
  result, an \<open>enter\<close> event for every region of the current pick result that is
  not in the bookkeeping, and the events of the raw event's kind for the
  current pick result (for a release on no region, one \<open>release_none\<close>). The
  regions of each group are in reverse drawing order: each group is a
  subsequence of the reversed region list, and with pairwise distinct regions
  it is the reversed region list restricted to the group.
\<close>

theorem dispatchRawEvent_order:
  assumes "fsm it0 = Some f0" and "bookkeeping it0 = []" and "it = run react frames it0"
    and "current = FSMInteractor_pick hp it localX localY"
    and "exited = filter (\<lambda>r. r \<notin> set current) (bookkeeping it)"
    and "entered = filter (\<lambda>r. r \<notin> set (bookkeeping it)) current"
  shows "forwarded react hp what localX localY evt it =
             map (\<lambda>r. ActOnEvent exit (Some r) None) exited
           @ map (\<lambda>r. ActOnEvent enter (Some r) None) entered
           @ (case what of
                raw_press \<Rightarrow> map (\<lambda>r. ActOnEvent press (Some r) None) current
              | raw_move \<Rightarrow> map (\<lambda>r. ActOnEvent move_inside (Some r) None) current
              | raw_release \<Rightarrow>
                  if current = [] then [ActOnEvent release_none None None]
                  else map (\<lambda>r. ActOnEvent release (Some r) None) current
              | raw_rightClick \<Rightarrow> map (\<lambda>r. ActOnEvent rightClick (Some r) (Some evt)) current) \<and>
         set exited = set (bookkeeping it) - set current \<and>
         set entered = set current - set (bookkeeping it) \<and>
         subseq exited (rev (regions f0)) \<and>
         subseq entered (rev (regions f0)) \<and>
         subseq current (rev (regions f0)) \<and>
         (distinct (regions f0) \<longrightarrow>
            exited = filter (\<lambda>r. r \<in> set (bookkeeping it) \<and> r \<notin> set current) (rev (regions f0)) \<and>
            entered = filter (\<lambda>r. r \<in> set current \<and> r \<notin> set (bookkeeping it)) (rev (regions f0)) \<and>
            current = filter (\<lambda>r. r \<in> set current) (rev (regions f0)))"
proof -
  have "subseq (bookkeeping it0) (rev (regions f0))" by (simp add: assms(2))
  from run_invariant [OF assms(1) this, of react frames]
  obtain f where f: "fsm it = Some f" and rf: "regions f = regions f0"
    and bk: "subseq (bookkeeping it) (rev (regions f0))"
    unfolding assms(3) by blast
  have cur: "subseq current (rev (regions f0))"
    using FSMInteractor_pick_subseq [OF f, of hp localX localY] by (simp only: assms(4) rf)
  have ex: "subseq exited (rev (regions f0))"
    unfolding assms(5) using bk subseq_filter_left subseq_order.order_trans by blast
  have en: "subseq entered (rev (regions f0))"
    unfolding assms(6) using cur subseq_filter_left subseq_order.order_trans by blast
  have fw: "forwarded react hp what localX localY evt it =
             map (\<lambda>r. ActOnEvent exit (Some r) None) exited
           @ map (\<lambda>r. ActOnEvent enter (Some r) None) entered
           @ (case what of
                raw_press \<Rightarrow> map (\<lambda>r. ActOnEvent press (Some r) None) current
              | raw_move \<Rightarrow> map (\<lambda>r. ActOnEvent move_inside (Some r) None) current
              | raw_release \<Rightarrow>
                  if current = [] then [ActOnEvent release_none None None]
                  else map (\<lambda>r. ActOnEvent release (Some r) None) current
              | raw_rightClick \<Rightarrow> map (\<lambda>r. ActOnEvent rightClick (Some r) (Some evt)) current)"
    unfolding assms(4,5,6) by (rule forwarded_eq [OF f])
  have s1: "set exited = set (bookkeeping it) - set current"
    unfolding assms(5) by auto
  have s2: "set entered = set current - set (bookkeeping it)"
    unfolding assms(6) by auto
  have d: "distinct (regions f0) \<longrightarrow>
            exited = filter (\<lambda>r. r \<in> set (bookkeeping it) \<and> r \<notin> set current) (rev (regions f0)) \<and>
            entered = filter (\<lambda>r. r \<in> set current \<and> r \<notin> set (bookkeeping it)) (rev (regions f0)) \<and>
            current = filter (\<lambda>r. r \<in> set current) (rev (regions f0))"
  proof
    assume "distinct (regions f0)"
    then have dr: "distinct (rev (regions f0))" by simp
    have "exited = filter (\<lambda>r. r \<in> set exited) (rev (regions f0))"
      by (rule subseq_distinct_filter [OF ex dr])
    then have e1: "exited = filter (\<lambda>r. r \<in> set (bookkeeping it) \<and> r \<notin> set current) (rev (regions f0))"
      by (simp only: s1 Diff_iff)
    have "entered = filter (\<lambda>r. r \<in> set entered) (rev (regions f0))"
      by (rule subseq_distinct_filter [OF en dr])
    then have e2: "entered = filter (\<lambda>r. r \<in> set current \<and> r \<notin> set (bookkeeping it)) (rev (regions f0))"
      by (simp only: s2 Diff_iff)
    have e3: "current = filter (\<lambda>r. r \<in> set current) (rev (regions f0))"
      by (rule subseq_distinct_filter [OF cur dr])
    from e1 e2 e3 show "exited = filter (\<lambda>r. r \<in> set (bookkeeping it) \<and> r \<notin> set current) (rev (regions f0)) \<and>
            entered = filter (\<lambda>r. r \<in> set current \<and> r \<notin> set (bookkeeping it)) (rev (regions f0)) \<and>
            current = filter (\<lambda>r. r \<in> set current) (rev (regions f0))" by blast
  qed
  from fw s1 s2 ex en cur d show ?thesis by blast
qed

text \<open>C5 at the point \<open>(60,60)\<close>, which lies in both regions of the example.\<close>

theorem FSMInteractor_pick_reverse_drawing_order_witness:
  "FSMInteractor_pick exampleHeap (FSMInteractor_new (Some exampleFSM) 0 0 None) 60 60 = [1, 0]"
  using FSMInteractor_pick_reverse_drawing_order
    [of "FSMInteractor_new (Some exampleFSM) 0 0 None" exampleFSM exampleHeap 60 60]
  by (simp add: FSMInteractor_new_def exampleFSM_def exampleHeap_def
      emptyHeap_def noRegion_def Region_pick_def)

text \<open>C1 in the example: after a move to \<open>(10,10)\<close>, inside \<open>A\<close> only, a press at
  \<open>(120,120)\<close>, inside \<open>B\<close> only.\<close>

theorem dispatchRawEvent_order_witness:
  "forwarded countEvents exampleHeap raw_press 120 120 exampleEvent
     (run countEvents [(exampleHeap, raw_move, 10, 10, exampleEvent)]
        (FSMInteractor_new (Some exampleFSM) 0 0 None)) =
   [ActOnEvent exit (Some 0) None, ActOnEvent enter (Some 1) None, ActOnEvent press (Some 1) None]"
  using dispatchRawEvent_order
    [where ?it0.0 = "FSMInteractor_new (Some exampleFSM) 0 0 None" and ?f0.0 = exampleFSM
       and react = countEvents and frames = "[(exampleHeap, raw_move, 10, 10, exampleEvent)]"
       and it = "run countEvents [(exampleHeap, raw_move, 10, 10, exampleEvent)]
                   (FSMInteractor_new (Some exampleFSM) 0 0 None)"
       and hp = exampleHeap and localX = 120 and localY = 120
       and what = raw_press and evt = exampleEvent, OF _ _ refl refl refl refl]
  by (simp add: FSMInteractor_new_def exampleFSM_def exampleHeap_def emptyHeap_def noRegion_def
      Region_pick_def FSMInteractor_pick_def dispatchRawEvent_def FSMInteractor_damage_def
      forEach_actOnEvent_def actOnEvent_def array_includes_def Let_def)

text \<open>
  C6. With an FSM, a raw release over a non-empty pick result gives the FSM one
  \<open>release\<close> event for every region of the pick result, in its order, and no
  \<open>release_none\<close>; over an empty pick result it gives exactly one \<open>release_none\<close>
  event, without region, and no \<open>release\<close>.
\<close>

theorem release_dispatch:
  assumes "fsm it = Some f"
  shows "(FSMInteractor_pick hp it localX localY \<noteq> [] \<longrightarrow>
            filter (\<lambda>c. callType c = release) (forwarded react hp raw_release localX localY evt it) =
              map (\<lambda>r. ActOnEvent release (Some r) None) (FSMInteractor_pick hp it localX localY) \<and>
            filter (\<lambda>c. callType c = release_none) (forwarded react hp raw_release localX localY evt it) = []) \<and>
         (FSMInteractor_pick hp it localX localY = [] \<longrightarrow>
            filter (\<lambda>c. callType c = release_none) (forwarded react hp raw_release localX localY evt it) =
              [ActOnEvent release_none None None] \<and>
            filter (\<lambda>c. callType c = release) (forwarded react hp raw_release localX localY evt it) = [])"
  by (simp add: forwarded_eq [OF assms] filter_map o_def)

text \<open>C6 in the example: a release at \<open>(60,60)\<close>, inside both regions, and one at
  \<open>(300,300)\<close>, outside both.\<close>

theorem release_dispatch_witness:
  "filter (\<lambda>c. callType c = release)
     (forwarded countEvents exampleHeap raw_release 60 60 exampleEvent (FSMInteractor_new (Some exampleFSM) 0 0 None)) =
     [ActOnEvent release (Some 1) None, ActOnEvent release (Some 0) None] \<and>
   filter (\<lambda>c. callType c = release_none)
     (forwarded countEvents exampleHeap raw_release 60 60 exampleEvent (FSMInteractor_new (Some exampleFSM) 0 0 None)) = [] \<and>
   filter (\<lambda>c. callType c = release_none)
     (forwarded countEvents exampleHeap raw_release 300 300 exampleEvent (FSMInteractor_new (Some exampleFSM) 0 0 None)) =
     [ActOnEvent release_none None None] \<and>
   filter (\<lambda>c. callType c = release)
     (forwarded countEvents exampleHeap raw_release 300 300 exampleEvent (FSMInteractor_new (Some exampleFSM) 0 0 None)) = []"
  using release_dispatch [where it = "FSMInteractor_new (Some exampleFSM) 0 0 None" and f = exampleFSM
        and react = countEvents and hp = exampleHeap and localX = 60 and localY = 60 and evt = exampleEvent]
    release_dispatch [where it = "FSMInteractor_new (Some exampleFSM) 0 0 None" and f = exampleFSM
        and react = countEvents and hp = exampleHeap and localX = 300 and localY = 300 and evt = exampleEvent]
  by (simp add: FSMInteractor_new_def exampleFSM_def exampleHeap_def emptyHeap_def noRegion_def
      Region_pick_def FSMInteractor_pick_def Let_def)

text \<open>
  C10. Without an FSM, \<open>dispatchRawEvent\<close> returns with the interactor as it was
  (same bookkeeping, no \<open>damage()\<close> call), no event is forwarded, and \<open>pick\<close>
  returns the empty list.
\<close>

theorem no_fsm_no_dispatch:
  assumes "fsm it = None"
  shows "dispatchRawEvent react hp what localX localY evt it = it \<and>
         forwarded react hp what localX localY evt it = [] \<and>
         FSMInteractor_pick hp it localX localY = []"
  using assms by (simp add: dispatchRawEvent_def forwarded_def FSMInteractor_pick_def)

text \<open>C10 at a new interactor without FSM.\<close>

theorem no_fsm_no_dispatch_witness:
  "dispatchRawEvent countEvents exampleHeap raw_press 60 60 exampleEvent (FSMInteractor_new None 0 0 None) =
     (FSMInteractor_new None 0 0 None :: nat FSMInteractor) \<and>
   forwarded countEvents exampleHeap raw_press 60 60 exampleEvent (FSMInteractor_new None 0 0 None) = [] \<and>
   FSMInteractor_pick exampleHeap (FSMInteractor_new None 0 0 None :: nat FSMInteractor) 60 60 = []"
  using no_fsm_no_dispatch [where it = "FSMInteractor_new None 0 0 None" and react = countEvents
      and hp = exampleHeap and what = raw_press and localX = 60 and localY = 60 and evt = exampleEvent]
  by (simp add: FSMInteractor_new_def)

section \<open>Properties of the actions\<close>

lemma bindLoop_first:
  assumes "i < length regionList" and "reg_name (hp (regionList ! i)) = n"
    and "\<forall>j<i. reg_name (hp (regionList ! j)) \<noteq> n"
  shows "bindLoop hp n regionList = Some (regionList ! i)"
  using assms
proof (induction regionList arbitrary: i)
  case Nil
  then show ?case by simp
next
  case (Cons region rest)
  show ?case
  proof (cases i)
    case 0
    with Cons.prems show ?thesis by simp
  next
    case (Suc k)
    from Cons.prems(3) Suc have "reg_name (hp region) \<noteq> n" by auto
    moreover have "bindLoop hp n rest = Some (rest ! k)"
    proof (rule Cons.IH)
      show "k < length rest" using Cons.prems(1) Suc by simp
      show "reg_name (hp (rest ! k)) = n" using Cons.prems(2) Suc by simp
      show "\<forall>j<k. reg_name (hp (rest ! j)) \<noteq> n"
      proof (intro allI impI)
        fix j assume "j < k"
        then have "Suc j < i" using Suc by simp
        with Cons.prems(3) have "reg_name (hp ((region # rest) ! Suc j)) \<noteq> n" by blast
        then show "reg_name (hp (rest ! j)) \<noteq> n" by simp
      qed
    qed
    ultimately show ?thesis using Suc by simp
  qed
qed

lemma bindLoop_none:
  "(\<forall>region \<in> set regionList. reg_name (hp region) \<noteq> n) \<Longrightarrow> bindLoop hp n regionList = None"
  by (induction regionList) simp_all

text \<open>
  C8. \<open>bindRegion\<close> binds the action to the first region of the list that has the
  action's region name and reports nothing. If no region has that name and the
  action type is \<open>none\<close>, \<open>print\<close> or \<open>print_event\<close>, the action is left unbound and
  nothing is reported. If no region has that name and the type is any other,
  the binding error is given to \<open>Err.emit\<close> and \<open>bindRegion\<close> returns, with the
  binding of the action as it was.
\<close>

theorem Action_bindRegion_cases:
  "(i < length regionList \<and> reg_name (w_heap w (regionList ! i)) = onRegionName a \<and>
      (\<forall>j<i. reg_name (w_heap w (regionList ! j)) \<noteq> onRegionName a) \<longrightarrow>
        Action_bindRegion regionList a w =
          (a\<lparr>regionLs := regionList, onRegion := Some (regionList ! i)\<rparr>, w)) \<and>
   ((\<forall>region \<in> set regionList. reg_name (w_heap w region) \<noteq> onRegionName a) \<and>
      actType a \<in> {''none'', ''print'', ''print_event''} \<longrightarrow>
        Action_bindRegion regionList a w = (a\<lparr>regionLs := regionList, onRegion := None\<rparr>, w)) \<and>
   ((\<forall>region \<in> set regionList. reg_name (w_heap w region) \<noteq> onRegionName a) \<and>
      actType a \<notin> {''none'', ''print'', ''print_event''} \<longrightarrow>
        Action_bindRegion regionList a w =
          (a\<lparr>regionLs := regionList\<rparr>,
           w\<lparr>w_env := (w_env w)\<lparr>errs := errs (w_env w) @ [bindingError (onRegionName a)]\<rparr>\<rparr>))"
proof (intro conjI impI)
  assume "i < length regionList \<and> reg_name (w_heap w (regionList ! i)) = onRegionName a \<and>
      (\<forall>j<i. reg_name (w_heap w (regionList ! j)) \<noteq> onRegionName a)"
  then have "bindLoop (w_heap w) (onRegionName a) regionList = Some (regionList ! i)"
    using bindLoop_first [of i regionList "w_heap w" "onRegionName a"] by blast
  then show "Action_bindRegion regionList a w =
          (a\<lparr>regionLs := regionList, onRegion := Some (regionList ! i)\<rparr>, w)"
    by (simp add: Action_bindRegion_def Let_def)
next
  assume "(\<forall>region \<in> set regionList. reg_name (w_heap w region) \<noteq> onRegionName a) \<and>
      actType a \<in> {''none'', ''print'', ''print_event''}"
  then have "bindLoop (w_heap w) (onRegionName a) regionList = None"
    and "actType a = ''none'' \<or> actType a = ''print'' \<or> actType a = ''print_event''"
    using bindLoop_none [of regionList "w_heap w" "onRegionName a"] by auto
  then show "Action_bindRegion regionList a w = (a\<lparr>regionLs := regionList, onRegion := None\<rparr>, w)"
    by (simp add: Action_bindRegion_def Let_def)
next
  assume "(\<forall>region \<in> set regionList. reg_name (w_heap w region) \<noteq> onRegionName a) \<and>
      actType a \<notin> {''none'', ''print'', ''print_event''}"
  then have "bindLoop (w_heap w) (onRegionName a) regionList = None"
    and "\<not> (actType a = ''none'' \<or> actType a = ''print'' \<or> actType a = ''print_event'')"
    using bindLoop_none [of regionList "w_heap w" "onRegionName a"] by auto
  then show "Action_bindRegion regionList a w =
          (a\<lparr>regionLs := regionList\<rparr>,
           w\<lparr>w_env := (w_env w)\<lparr>errs := errs (w_env w) @ [bindingError (onRegionName a)]\<rparr>\<rparr>)"
    by (simp add: Action_bindRegion_def Let_def Err_emit_def)
qed

text \<open>C8 in the example world, where the regions \<open>1\<close> and \<open>2\<close> are both called \<open>B\<close> and
  none is called \<open>C\<close>.\<close>

theorem Action_bindRegion_cases_witness:
  "onRegion (fst (Action_bindRegion [0, 1, 2] (Action_new ''set_image'' ''B'' ''b.png'') exampleWorld)) = Some 1 \<and>
   snd (Action_bindRegion [0, 1, 2] (Action_new ''set_image'' ''B'' ''b.png'') exampleWorld) = exampleWorld \<and>
   onRegion (fst (Action_bindRegion [0, 1, 2] (Action_new ''print'' ''C'' ''hello'') exampleWorld)) = None \<and>
   snd (Action_bindRegion [0, 1, 2] (Action_new ''print'' ''C'' ''hello'') exampleWorld) = exampleWorld \<and>
   onRegion (fst (Action_bindRegion [0, 1, 2] (Action_new ''set_image'' ''C'' ''c.png'') exampleWorld)) = None \<and>
   errs (w_env (snd (Action_bindRegion [0, 1, 2] (Action_new ''set_image'' ''C'' ''c.png'') exampleWorld))) =
     [bindingError ''C'']"
  using Action_bindRegion_cases [of 1 "[0, 1, 2]" exampleWorld "Action_new ''set_image'' ''B'' ''b.png''"]
    Action_bindRegion_cases [of 0 "[0, 1, 2]" exampleWorld "Action_new ''print'' ''C'' ''hello''"]
    Action_bindRegion_cases [of 0 "[0, 1, 2]" exampleWorld "Action_new ''set_image'' ''C'' ''c.png''"]
  by (simp add: Action_new_def exampleWorld_def initialWorld_def exampleHeap_def emptyHeap_def
      noRegion_def initialEnv_def)

text \<open>
  C3 (amended). In Action.ts, executing an action whose type is not in the
  vocabulary is not an error: \<open>execute\<close> logs the event type and the action type
  and returns, with no other effect. Only the compiled Action.js of the earlier
  revision throws \<open>Unknown action type\<close>.
\<close>

theorem Action_execute_unknown:
  assumes "actType a \<notin> set actionTypeStrings"
  shows "Action_execute evtType evtReg evt a w =
           Inr (console_log [LStr ''actType:'', LStr (actType a)]
                  (console_log [LStr ''evtType:'', LEvt evtType] w)) \<and>
         Action_execute_js evtType evtReg evt a w =
           Inl (Error (''Unknown action type: '' @ actType a))"
  using assms
  by (simp add: Action_execute_def Action_execute_js_def actionTypeStrings_def Let_def)

text \<open>C3 as stated fails in Action.ts: executing an action of the unknown type
  \<open>bogus\<close> returns normally.\<close>

theorem Action_execute_unknown_counterexample:
  "''bogus'' \<notin> set actionTypeStrings \<and>
   Action_execute press None None (Action_new ''bogus'' [] []) initialWorld =
     Inr (initialWorld\<lparr>console := [[LStr ''evtType:'', LEvt press], [LStr ''actType:'', LStr ''bogus'']]\<rparr>)"
  by (simp add: Action_execute_def Action_new_def actionTypeStrings_def console_log_def
      initialWorld_def Let_def)

text \<open>C3 (amended) at the action type \<open>bogus\<close>.\<close>

theorem Action_execute_unknown_witness:
  "Action_execute press None None (Action_new ''bogus'' [] []) initialWorld =
     Inr (initialWorld\<lparr>console := [[LStr ''evtType:'', LEvt press], [LStr ''actType:'', LStr ''bogus'']]\<rparr>) \<and>
   Action_execute_js press None None (Action_new ''bogus'' [] []) initialWorld =
     Inl (Error ''Unknown action type: bogus'')"
  using Action_execute_unknown [of "Action_new ''bogus'' [] []" press None None initialWorld]
  by (simp add: Action_new_def actionTypeStrings_def console_log_def initialWorld_def)

end
